theory Spec2Isabelle
  imports Complex_Main
begin

section \<open>Numbers\<close>

text \<open>
  Prices are JavaScript numbers. They are modelled as exact reals: every comparison
  the code makes is a comparison of the modelled values, and \<open>toFixed(4)\<close> followed by
  unary plus is rounding to the nearest multiple of \<open>1/10000\<close>. Timestamps are epoch
  milliseconds (\<open>Date.now()\<close>, and the instant behind \<open>new Date().toISOString()\<close>).
\<close>

type_synonym number = real

definition MAX_RATE_PER_SECOND :: nat where
  "MAX_RATE_PER_SECOND = 50"

definition BROADCAST_INTERVAL_MS :: int where
  "BROADCAST_INTERVAL_MS = 800"

definition IST_OFFSET_MINUTES :: int where
  "IST_OFFSET_MINUTES = 330"

text \<open>
  \<open>+(x).toFixed(4)\<close>: the integer \<open>n\<close> with \<open>n / 10^4\<close> nearest to \<open>|x|\<close>, the
  larger one on a tie, with the sign of \<open>x\<close> put back.
\<close>

definition toFixed4 :: "number \<Rightarrow> number" where
  "toFixed4 x =
     (if x < 0 then - (of_int \<lfloor>- x * 10000 + 1 / 2\<rfloor> / 10000)
      else of_int \<lfloor>x * 10000 + 1 / 2\<rfloor> / 10000)"

text \<open>A price with at most four decimal places.\<close>

definition on_grid :: "number \<Rightarrow> bool" where
  "on_grid x \<longleftrightarrow> of_int \<lfloor>x * 10000\<rfloor> = x * 10000"

section \<open>Instruments\<close>

record base =
  b_open :: number
  b_high :: number
  b_low :: number
  b_close :: number
  b_volume :: int

definition BASE_OHLC :: "(string \<times> base) list" where
  "BASE_OHLC =
    [(''AAPL'', \<lparr>b_open = 228.5, b_high = 232.4, b_low = 227.9, b_close = 231.85, b_volume = 58200000\<rparr>),
     (''TSLA'', \<lparr>b_open = 405.2, b_high = 410.1, b_low = 404.1, b_close = 409.35, b_volume = 23400000\<rparr>),
     (''MSFT'', \<lparr>b_open = 167.8, b_high = 170.25, b_low = 167.1, b_close = 169.95, b_volume = 26800000\<rparr>),
     (''GOOG'', \<lparr>b_open = 148.5, b_high = 152.3, b_low = 147.9, b_close = 151.75, b_volume = 51200000\<rparr>),
     (''AMZN'', \<lparr>b_open = 1250.0, b_high = 1286.4, b_low = 1245.5, b_close = 1280.75, b_volume = 312500000\<rparr>),
     (''NVDA'', \<lparr>b_open = 427.4, b_high = 432.25, b_low = 426.1, b_close = 431.1, b_volume = 3900000\<rparr>),
     (''META'', \<lparr>b_open = 172.8, b_high = 175.75, b_low = 172.2, b_close = 175.1, b_volume = 12800000\<rparr>),
     (''NFLX'', \<lparr>b_open = 244.1, b_high = 248.55, b_low = 243.2, b_close = 247.6, b_volume = 7800000\<rparr>),
     (''JPM'', \<lparr>b_open = 410.2, b_high = 417.4, b_low = 409.8, b_close = 416.25, b_volume = 3600000\<rparr>),
     (''BAC'', \<lparr>b_open = 32.7, b_high = 33.25, b_low = 32.4, b_close = 33.05, b_volume = 42600000\<rparr>),
     (''INTC'', \<lparr>b_open = 254.2, b_high = 261.8, b_low = 253.1, b_close = 259.7, b_volume = 102000000\<rparr>),
     (''ORCL'', \<lparr>b_open = 160.3, b_high = 163.6, b_low = 159.85, b_close = 162.75, b_volume = 13200000\<rparr>),
     (''IBM'', \<lparr>b_open = 147.4, b_high = 149.8, b_low = 146.9, b_close = 149.1, b_volume = 7500000\<rparr>),
     (''CSCO'', \<lparr>b_open = 58.4, b_high = 59.65, b_low = 58.1, b_close = 59.2, b_volume = 14500000\<rparr>),
     (''SAP'', \<lparr>b_open = 168.8, b_high = 171.9, b_low = 168.2, b_close = 171.25, b_volume = 5850000\<rparr>),
     (''ADBE'', \<lparr>b_open = 155.4, b_high = 157.85, b_low = 155.0, b_close = 157.1, b_volume = 9200000\<rparr>),
     (''UBER'', \<lparr>b_open = 525.1, b_high = 531.4, b_low = 523.8, b_close = 530.2, b_volume = 3580000\<rparr>),
     (''LYFT'', \<lparr>b_open = 103.7, b_high = 106.4, b_low = 103.1, b_close = 105.85, b_volume = 11400000\<rparr>),
     (''SNAP'', \<lparr>b_open = 98.2, b_high = 100.85, b_low = 97.8, b_close = 100.25, b_volume = 8750000\<rparr>),
     (''TWTR'', \<lparr>b_open = 595.4, b_high = 612.1, b_low = 594.3, b_close = 608.5, b_volume = 5250000\<rparr>)]"

record instrument =
  symbol :: string
  date :: string
  open_price :: number
  high_price :: number
  low_price :: number
  close_price :: number
  volume :: int
  ts :: int

text \<open>
  The table \<open>instruments\<close>: an object whose own keys are kept in insertion order, here an
  association list. \<open>init_instruments today now\<close> is the start-up loop over \<open>BASE_OHLC\<close>;
  \<open>today\<close> is the date string and \<open>now\<close> reads the clock once for each symbol.
\<close>

type_synonym store = "(string \<times> instrument) list"

definition init_instrument :: "string \<Rightarrow> (string \<Rightarrow> int) \<Rightarrow> string \<times> base \<Rightarrow> string \<times> instrument" where
  "init_instrument today now kb =
     (fst kb,
      \<lparr>symbol = fst kb, date = today,
       open_price = b_open (snd kb), high_price = b_high (snd kb),
       low_price = b_low (snd kb), close_price = b_close (snd kb),
       volume = b_volume (snd kb), ts = now (fst kb)\<rparr>)"

definition init_instruments :: "string \<Rightarrow> (string \<Rightarrow> int) \<Rightarrow> store" where
  "init_instruments today now = map (init_instrument today now) BASE_OHLC"

definition store_keys :: "store \<Rightarrow> string list" where
  "store_keys st = map fst st"

fun store_update :: "string \<Rightarrow> instrument \<Rightarrow> store \<Rightarrow> store" where
  "store_update k v [] = []"
| "store_update k v ((k', v') # st) =
     (if k = k' then (k', v) # st else (k', v') # store_update k v st)"

section \<open>Helpers\<close>

text \<open>\<open>randPct r maxPct\<close>, where \<open>r\<close> is the value \<open>Math.random()\<close> returned.\<close>

definition randPct :: "number \<Rightarrow> number \<Rightarrow> number" where
  "randPct r maxPct = (r * 2 - 1) * maxPct"

text \<open>
  \<open>simulateTick r1 r2 now state\<close>: \<open>r1\<close> and \<open>r2\<close> are the two values of
  \<open>Math.random()\<close>, \<open>now\<close> the clock. The result is the mutated state, which is also the
  copy the function returns.
\<close>

definition simulateTick :: "number \<Rightarrow> number \<Rightarrow> int \<Rightarrow> instrument \<Rightarrow> instrument" where
  "simulateTick r1 r2 now state =
     (let pct = randPct r1 (4 / 1000);
          newPrice = toFixed4 (close_price state * (1 + pct));
          s1 = state\<lparr>close_price := newPrice\<rparr>;
          s2 = (if newPrice > high_price s1 then s1\<lparr>high_price := newPrice\<rparr> else s1);
          s3 = (if newPrice < low_price s2 then s2\<lparr>low_price := newPrice\<rparr> else s2);
          s4 = s3\<lparr>volume := volume s3 + \<lfloor>5000 + r2 * 20000\<rfloor>\<rparr>
      in s4\<lparr>ts := now\<rparr>)"

record meta =
  subs :: "string list"
  lastWindowStart :: int
  sentInWindow :: nat

text \<open>The test of the first \<open>if\<close> of \<open>allowSendRate\<close>; a window start of 0 is falsy.\<close>

definition window_expired :: "int \<Rightarrow> meta \<Rightarrow> bool" where
  "window_expired now m \<longleftrightarrow> lastWindowStart m = 0 \<or> now - lastWindowStart m > 1000"

definition allowSendRate :: "int \<Rightarrow> meta \<Rightarrow> bool \<times> meta" where
  "allowSendRate now m =
     (let m1 = (if window_expired now m then m\<lparr>lastWindowStart := now, sentInWindow := 0\<rparr> else m)
      in if sentInWindow m1 \<ge> MAX_RATE_PER_SECOND then (False, m1)
         else (True, m1\<lparr>sentInWindow := sentInWindow m1 + 1\<rparr>))"

record quote =
  q_symbol :: string
  q_last :: number
  q_open :: number
  q_high :: number
  q_low :: number
  q_volume :: int
  day_change :: number
  day_change_percent :: number
  event_ts :: int
  currency :: string
  source :: string

definition formatQuote :: "instrument \<Rightarrow> quote" where
  "formatQuote state =
     (let last = close_price state;
          change = toFixed4 (last - open_price state);
          changePct = (if open_price state \<noteq> 0
                       then toFixed4 ((change / open_price state) * 100) else 0)
      in \<lparr>q_symbol = symbol state, q_last = last, q_open = open_price state,
          q_high = high_price state, q_low = low_price state, q_volume = volume state,
          day_change = change, day_change_percent = changePct, event_ts = ts state,
          currency = ''USD'', source = ''simulator''\<rparr>)"

section \<open>Market clock gate\<close>

text \<open>
  A \<open>Date\<close> is its instant in epoch milliseconds. \<open>tz t\<close> is what
  \<open>getTimezoneOffset()\<close> returns on this host for a \<open>Date\<close> of instant \<open>t\<close>: the minutes
  to add to local time to get UTC. \<open>getHours\<close> and \<open>getMinutes\<close> read the local clock.
\<close>

definition getHours :: "(int \<Rightarrow> int) \<Rightarrow> int \<Rightarrow> int" where
  "getHours tz t = ((t - tz t * 60000) div 3600000) mod 24"

definition getMinutes :: "(int \<Rightarrow> int) \<Rightarrow> int \<Rightarrow> int" where
  "getMinutes tz t = ((t - tz t * 60000) div 60000) mod 60"

definition nowInIST :: "(int \<Rightarrow> int) \<Rightarrow> int \<Rightarrow> int" where
  "nowInIST tz now =
     (let utcMillis = now + tz now * 60000
      in utcMillis + IST_OFFSET_MINUTES * 60000)"

definition isMarketOpenIST :: "(int \<Rightarrow> int) \<Rightarrow> int \<Rightarrow> bool" where
  "isMarketOpenIST tz now =
     (let ist = nowInIST tz now;
          minutes = getHours tz ist * 60 + getMinutes tz ist
      in minutes \<ge> 10 * 60 \<and> minutes < 19 * 60)"

text \<open>The specification's reading: minutes since midnight at the fixed offset UTC+5:30.\<close>

definition ist_minutes_since_midnight :: "int \<Rightarrow> int" where
  "ist_minutes_since_midnight t = ((t + 330 * 60000) div 60000) mod 1440"

definition spec_market_open :: "int \<Rightarrow> bool" where
  "spec_market_open t \<longleftrightarrow> 600 \<le> ist_minutes_since_midnight t \<and> ist_minutes_since_midnight t < 1140"

text \<open>
  Three hosts: one on UTC; one on US Eastern time around the end of daylight saving time
  on 2025-11-02 at 06:00 UTC (offset 240 minutes before, 300 after); one on US Pacific
  time around its start on 2025-03-09 at 10:00 UTC (offset 480 minutes before, 420 after).
\<close>

definition tz_utc :: "int \<Rightarrow> int" where
  "tz_utc t = 0"

definition tz_new_york :: "int \<Rightarrow> int" where
  "tz_new_york t = (if t < 1762063200000 then 240 else 300)"

definition tz_los_angeles :: "int \<Rightarrow> int" where
  "tz_los_angeles t = (if t < 1741514400000 then 480 else 420)"

section \<open>Connections\<close>

text \<open>
  What a client can send as the argument of an event. The elements of an array are taken
  to be strings, as the interface declares them; the shape of the argument itself is free.
  A number is a finite one.
\<close>

datatype jsval =
  JUndefined | JNull | JBool bool | JNum number | JStr string
  | JObj "(string \<times> jsval) list" | JArr "string list"

datatype error = TypeError

fun truthy :: "jsval \<Rightarrow> bool" where
  "truthy JUndefined = False"
| "truthy JNull = False"
| "truthy (JBool b) = b"
| "truthy (JNum n) = (n \<noteq> 0)"
| "truthy (JStr s) = (s \<noteq> [])"
| "truthy (JObj ps) = True"
| "truthy (JArr xs) = True"

text \<open>\<open>symbols.length === 0\<close>, for a value that is neither undefined nor null.\<close>

fun length_is_zero :: "jsval \<Rightarrow> bool" where
  "length_is_zero (JStr s) = (s = [])"
| "length_is_zero (JArr xs) = (xs = [])"
| "length_is_zero (JObj ps) = (map_of ps ''length'' = Some (JNum 0))"
| "length_is_zero v = False"

fun isArray :: "jsval \<Rightarrow> bool" where
  "isArray (JArr xs) = True"
| "isArray v = False"


text \<open>
  \<open>instruments[sym]\<close> is truthy for an own key of the table and for every property that a
  plain object inherits from \<open>Object.prototype\<close>.
\<close>

definition object_prototype_keys :: "string list" where
  "object_prototype_keys =
     [''constructor'', ''__defineGetter__'', ''__defineSetter__'', ''hasOwnProperty'',
      ''__lookupGetter__'', ''__lookupSetter__'', ''isPrototypeOf'', ''propertyIsEnumerable'',
      ''toString'', ''valueOf'', ''__proto__'', ''toLocaleString'']"

definition has_property :: "store \<Rightarrow> string \<Rightarrow> bool" where
  "has_property st symb \<longleftrightarrow> symb \<in> set (store_keys st) \<or> symb \<in> set object_prototype_keys"

text \<open>A \<open>Set\<close> keeps its elements in insertion order: a list without duplicates.\<close>

definition set_add :: "'a \<Rightarrow> 'a list \<Rightarrow> 'a list" where
  "set_add x xs = (if x \<in> set xs then xs else xs @ [x])"

definition set_delete :: "'a \<Rightarrow> 'a list \<Rightarrow> 'a list" where
  "set_delete x xs = removeAll x xs"

definition add_each :: "'a list \<Rightarrow> 'a list \<Rightarrow> 'a list" where
  "add_each xs acc = foldl (\<lambda>a x. set_add x a) acc xs"

definition delete_each :: "'a list \<Rightarrow> 'a list \<Rightarrow> 'a list" where
  "delete_each xs acc = foldl (\<lambda>a x. set_delete x a) acc xs"

fun join :: "string list \<Rightarrow> string" where
  "join [] = []"
| "join [x] = x"
| "join (x # y # ys) = x @ '', '' @ join (y # ys)"

text \<open>
  An element of a snapshot is \<open>None\<close> where \<open>instruments[sym]\<close> is an inherited property:
  \<open>formatQuote\<close> then reads undefined fields.
\<close>

datatype message =
  Info string | Snapshot "quote option list" | Update quote | Pong int

record socket =
  sid :: nat
  meta :: meta
  outbox :: "message list"

definition emit :: "message \<Rightarrow> socket \<Rightarrow> socket" where
  "emit msg s = s\<lparr>outbox := outbox s @ [msg]\<rparr>"

definition on_connection :: "int \<Rightarrow> nat \<Rightarrow> socket" where
  "on_connection now i =
     emit (Info ''Connected! Subscribe with socket.emit('subscribe', ['AAPL','TSLA'])'')
       \<lparr>sid = i, meta = \<lparr>subs = [], lastWindowStart = now, sentInWindow = 0\<rparr>, outbox = []\<rparr>"

definition snapshot_of :: "store \<Rightarrow> string list \<Rightarrow> quote option list" where
  "snapshot_of st syms = map (\<lambda>symb. map_option formatQuote (map_of st symb)) syms"

definition on_subscribe :: "store \<Rightarrow> jsval \<Rightarrow> socket \<Rightarrow> error + socket" where
  "on_subscribe st symbols s =
     (let cleared = [] in
      if \<not> truthy symbols \<or> length_is_zero symbols then
        (let subs' = add_each (store_keys st) cleared
         in Inr (emit (Snapshot (snapshot_of st subs')) (s\<lparr>meta := (meta s)\<lparr>subs := subs'\<rparr>\<rparr>)))
      else
        (case symbols of
           JArr xs \<Rightarrow>
             (let subs' = add_each (filter (has_property st) xs) cleared
              in Inr (emit (Snapshot (snapshot_of st subs')) (s\<lparr>meta := (meta s)\<lparr>subs := subs'\<rparr>\<rparr>)))
         | _ \<Rightarrow> Inl TypeError))"

definition on_unsubscribe :: "jsval \<Rightarrow> socket \<Rightarrow> error + socket" where
  "on_unsubscribe symbols s =
     (if \<not> truthy symbols \<or> \<not> isArray symbols then Inr s
      else
        (case symbols of
           JArr xs \<Rightarrow>
             Inr (emit (Info (''Unsubscribed from: '' @ join xs))
                    (s\<lparr>meta := (meta s)\<lparr>subs := delete_each xs (subs (meta s))\<rparr>\<rparr>))
         | _ \<Rightarrow> Inl TypeError))"

definition on_ping :: "int \<Rightarrow> socket \<Rightarrow> socket" where
  "on_ping now s = emit (Pong now) s"

section \<open>Simulation loop\<close>

text \<open>
  What one run of \<open>tick\<close> reads from outside: the host's time zone, the clock at the gate,
  at each \<open>simulateTick\<close> (by symbol) and at each \<open>allowSendRate\<close> (by socket), and the values
  of \<open>Math.random()\<close>: one for the count, the list consumed by the selection loop, and two
  for each \<open>simulateTick\<close>. The loop stops with \<open>None\<close> when the list runs out.
\<close>

record env =
  tz :: "int \<Rightarrow> int"
  gate_now :: int
  rnd_count :: number
  rnd_pick :: "number list"
  rnd_pct :: "string \<Rightarrow> number"
  rnd_vol :: "string \<Rightarrow> number"
  tick_now :: "string \<Rightarrow> int"
  send_now :: "nat \<Rightarrow> int"

record world =
  instruments :: store
  sockets :: "socket list"

text \<open>\<open>xs[i]\<close>: undefined out of range.\<close>

definition js_index :: "'a list \<Rightarrow> int \<Rightarrow> 'a option" where
  "js_index xs i = (if 0 \<le> i \<and> i < int (length xs) then Some (xs ! nat i) else None)"

fun pick_symbols :: "string list \<Rightarrow> int \<Rightarrow> string option list \<Rightarrow> number list \<Rightarrow> string option list option" where
  "pick_symbols symbols count updateSymbols [] =
     (if int (length updateSymbols) < count then None else Some updateSymbols)"
| "pick_symbols symbols count updateSymbols (r # rs) =
     (if int (length updateSymbols) < count
      then pick_symbols symbols count
             (set_add (js_index symbols \<lfloor>r * of_nat (length symbols)\<rfloor>) updateSymbols) rs
      else Some updateSymbols)"

text \<open>
  \<open>[...updateSymbols].map(sym => simulateTick(instruments[sym]))\<close>: each state is mutated in
  the table and its copy collected; \<open>simulateTick(undefined)\<close> throws.
\<close>

fun simulate_each :: "env \<Rightarrow> string option list \<Rightarrow> store \<Rightarrow> error + (store \<times> instrument list)" where
  "simulate_each e [] st = Inr (st, [])"
| "simulate_each e (None # syms) st = Inl TypeError"
| "simulate_each e (Some symb # syms) st =
     (case map_of st symb of
        None \<Rightarrow> Inl TypeError
      | Some state \<Rightarrow>
          (let u = simulateTick (rnd_pct e symb) (rnd_vol e symb) (tick_now e symb) state
           in case simulate_each e syms (store_update symb u st) of
                Inl err \<Rightarrow> Inl err
              | Inr (st', us) \<Rightarrow> Inr (st', u # us)))"

text \<open>The callback of \<open>io.sockets.sockets.forEach\<close>.\<close>

definition socket_cycle :: "int \<Rightarrow> instrument list \<Rightarrow> socket \<Rightarrow> socket" where
  "socket_cycle now updates s =
     (case allowSendRate now (meta s) of
        (ok, m') \<Rightarrow>
          if \<not> ok then s\<lparr>meta := m'\<rparr>
          else
            (let relevant = filter (\<lambda>u. symbol u \<in> set (subs m')) updates
             in s\<lparr>meta := m', outbox := outbox s @ map (\<lambda>u. Update (formatQuote u)) relevant\<rparr>))"

definition selected :: "env \<Rightarrow> world \<Rightarrow> string option list option" where
  "selected e w =
     pick_symbols (store_keys (instruments w)) (3 + \<lfloor>rnd_count e * 4\<rfloor>) [] (rnd_pick e)"

text \<open>
  \<open>tick\<close> returns the new world and the delay it passes to \<open>setTimeout\<close>, an error where
  the code throws, and \<open>None\<close> where the selection loop has not finished.
\<close>

definition tick :: "env \<Rightarrow> world \<Rightarrow> (error + world \<times> int) option" where
  "tick e w =
     (if \<not> isMarketOpenIST (tz e) (gate_now e) then Some (Inr (w, 30000))
      else
        (case selected e w of
           None \<Rightarrow> None
         | Some updateSymbols \<Rightarrow>
             (case simulate_each e updateSymbols (instruments w) of
                Inl err \<Rightarrow> Some (Inl err)
              | Inr (st', updates) \<Rightarrow>
                  Some (Inr (\<lparr>instruments = st',
                              sockets = map (\<lambda>s. socket_cycle (send_now e (sid s)) updates s) (sockets w)\<rparr>,
                             BROADCAST_INTERVAL_MS)))))"

section \<open>Well-formed inputs of a cycle\<close>

text \<open>
  The table is not empty, has distinct keys and each state carries its key as \<open>symbol\<close>;
  \<open>Math.random()\<close> returns a value in \<open>[0, 1)\<close>.
\<close>

definition store_wf :: "store \<Rightarrow> bool" where
  "store_wf st \<longleftrightarrow>
     st \<noteq> [] \<and> distinct (store_keys st) \<and> map (\<lambda>kv. symbol (snd kv)) st = store_keys st"





text \<open>The state that \<open>simulateTick\<close> leaves for a symbol in a cycle.\<close>

definition simulated :: "env \<Rightarrow> string \<Rightarrow> instrument \<Rightarrow> instrument" where
  "simulated e symb state =
     simulateTick (rnd_pct e symb) (rnd_vol e symb) (tick_now e symb) state"






section \<open>Runs\<close>

text \<open>Successive calls of \<open>allowSendRate\<close> on one connection, at the given clock readings.\<close>

fun checks :: "int list \<Rightarrow> meta \<Rightarrow> bool list \<times> meta" where
  "checks [] m = ([], m)"
| "checks (t # tms) m =
     (case allowSendRate t m of
        (ok, m') \<Rightarrow> (case checks tms m' of (oks, m'') \<Rightarrow> (ok # oks, m'')))"

text \<open>The invariant of an instrument, and of the table.\<close>

definition ohlc_ok :: "instrument \<Rightarrow> bool" where
  "ohlc_ok state \<longleftrightarrow>
     low_price state \<le> close_price state \<and> close_price state \<le> high_price state \<and>
     low_price state \<le> open_price state \<and> open_price state \<le> high_price state"

fun store_ok :: "store \<Rightarrow> bool" where
  "store_ok [] = True"
| "store_ok (kv # st) = (ohlc_ok (snd kv) \<and> store_ok st)"

text \<open>
  The states of the server: the table as built at start-up and no connection; then
  connections, their events and the runs of \<open>tick\<close>, in any order. A handler or a
  \<open>tick\<close> that throws, and a \<open>tick\<close> that does not return, lead nowhere.
\<close>

inductive reachable :: "world \<Rightarrow> bool" where
  start: "reachable \<lparr>instruments = init_instruments today now, sockets = []\<rparr>"
| connection: "reachable w \<Longrightarrow> reachable (w\<lparr>sockets := sockets w @ [on_connection now i]\<rparr>)"
| subscribe: "reachable w \<Longrightarrow> i < length (sockets w) \<Longrightarrow>
     on_subscribe (instruments w) symbols (sockets w ! i) = Inr s' \<Longrightarrow>
     reachable (w\<lparr>sockets := (sockets w)[i := s']\<rparr>)"
| unsubscribe: "reachable w \<Longrightarrow> i < length (sockets w) \<Longrightarrow>
     on_unsubscribe symbols (sockets w ! i) = Inr s' \<Longrightarrow>
     reachable (w\<lparr>sockets := (sockets w)[i := s']\<rparr>)"
| ping: "reachable w \<Longrightarrow> i < length (sockets w) \<Longrightarrow>
     reachable (w\<lparr>sockets := (sockets w)[i := on_ping now (sockets w ! i)]\<rparr>)"
| disconnect: "reachable w \<Longrightarrow> i < length (sockets w) \<Longrightarrow>
     reachable (w\<lparr>sockets := take i (sockets w) @ drop (Suc i) (sockets w)\<rparr>)"
| tick: "reachable w \<Longrightarrow> tick e w = Some (Inr (w', delay)) \<Longrightarrow> reachable w'"

text \<open>
  The life of one connection: the cycles of \<open>tick\<close> that reach it, each with the clock its
  \<open>allowSendRate\<close> reads and the batch of the cycle, and its own events in between.
  \<open>conn_log\<close> records, for each cycle, the start of the rate window in force after the
  admission check and the number of update messages sent. A handler that throws ends it.
\<close>

datatype event =
  Cycle int "instrument list" | Subscribe jsval | Unsubscribe jsval | Ping int


text \<open>For each cycle of a connection's life, whether \<open>allowSendRate\<close> admitted it.\<close>

fun conn_admits :: "store \<Rightarrow> event list \<Rightarrow> socket \<Rightarrow> bool list" where
  "conn_admits st [] s = []"
| "conn_admits st (Cycle now updates # evs) s =
     fst (allowSendRate now (meta s)) # conn_admits st evs (socket_cycle now updates s)"
| "conn_admits st (Subscribe symbols # evs) s =
     (case on_subscribe st symbols s of Inl err \<Rightarrow> [] | Inr s' \<Rightarrow> conn_admits st evs s')"
| "conn_admits st (Unsubscribe symbols # evs) s =
     (case on_unsubscribe symbols s of Inl err \<Rightarrow> [] | Inr s' \<Rightarrow> conn_admits st evs s')"
| "conn_admits st (Ping now # evs) s = conn_admits st evs (on_ping now s)"


text \<open>
  \<open>tick\<close> re-arms itself with \<open>setTimeout(tick, BROADCAST_INTERVAL_MS)\<close> after a cycle and
  selects at most 6 symbols: no cycle comes before \<open>lb\<close>, each is at least 800 ms after
  the one before, and each batch has at most 6 states.
\<close>

fun timer_ok :: "int \<Rightarrow> event list \<Rightarrow> bool" where
  "timer_ok lb [] = True"
| "timer_ok lb (Cycle now updates # evs) =
     (lb \<le> now \<and> length updates \<le> 6 \<and> timer_ok (now + BROADCAST_INTERVAL_MS) evs)"
| "timer_ok lb (ev # evs) = timer_ok lb evs"

section \<open>Concrete inputs\<close>

text \<open>The table as the start-up loop builds it on 2025-11-01, every clock reading the same.\<close>

definition seed_clock :: "string \<Rightarrow> int" where
  "seed_clock s = 1762000000000"

definition seed_store :: store where
  "seed_store = init_instruments ''2025-11-01'' seed_clock"


text \<open>
  A run of \<open>tick\<close> at 12:00 IST on a UTC host: the count drawn is 4; the selection loop
  draws TSLA, TSLA again, MSFT, TWTR and AAPL; every price moves by +0.2 percent and
  every volume by 15000.
\<close>

definition pct_draw0 :: "string \<Rightarrow> number" where
  "pct_draw0 s = 0.75"

definition vol_draw0 :: "string \<Rightarrow> number" where
  "vol_draw0 s = 0.5"

definition tick_clock0 :: "string \<Rightarrow> int" where
  "tick_clock0 s = 1762065000001"

definition send_clock0 :: "nat \<Rightarrow> int" where
  "send_clock0 i = 1762065000002"

definition env0 :: env where
  "env0 = \<lparr>tz = tz_utc, gate_now = 1762065000000, rnd_count = 0.3,
            rnd_pick = [0.05, 0.05, 0.1, 0.95, 0, 0.5],
            rnd_pct = pct_draw0, rnd_vol = vol_draw0,
            tick_now = tick_clock0, send_now = send_clock0\<rparr>"

definition world_start :: world where
  "world_start = \<lparr>instruments = seed_store, sockets = []\<rparr>"

definition world1 :: world where
  "world1 = (case tick env0 world_start of Some (Inr (w, d)) \<Rightarrow> w | _ \<Rightarrow> world_start)"

definition is_done :: "(error + world \<times> int) option \<Rightarrow> bool" where
  "is_done r = (case r of Some (Inr (w, d)) \<Rightarrow> True | _ \<Rightarrow> False)"

definition meta_full :: meta where
  "meta_full = \<lparr>subs = [''AAPL''], lastWindowStart = 1762065000000, sentInWindow = 50\<rparr>"

definition sock_aapl_goog :: socket where
  "sock_aapl_goog =
     \<lparr>sid = 0,
      meta = \<lparr>subs = [''AAPL'', ''GOOG''], lastWindowStart = 1762065000000, sentInWindow = 0\<rparr>,
      outbox = []\<rparr>"
















section \<open>Properties of rounding\<close>



lemma toFixed4_grid: "\<exists>n::int. toFixed4 x = of_int n / 10000"
  unfolding toFixed4_def by (metis of_int_minus minus_divide_left)


lemma on_grid_iff: "on_grid x \<longleftrightarrow> (\<exists>n::int. x = of_int n / 10000)"
proof
  assume "on_grid x"
  then have "of_int \<lfloor>x * 10000\<rfloor> = x * 10000" unfolding on_grid_def .
  then have "x = of_int \<lfloor>x * 10000\<rfloor> / 10000" by linarith
  then show "\<exists>n::int. x = of_int n / 10000" ..
next
  assume "\<exists>n::int. x = of_int n / 10000"
  then obtain n :: int where "x = of_int n / 10000" ..
  then have "x * 10000 = of_int n" by simp
  then show "on_grid x" unfolding on_grid_def by (simp only: floor_of_int)
qed

lemma toFixed4_on_grid: "on_grid (toFixed4 x)"
  using toFixed4_grid [of x] by (simp add: on_grid_iff)



section \<open>Quotes\<close>




section \<open>Rate limiter\<close>

lemma checks_in_window:
  "lastWindowStart m \<noteq> 0 \<Longrightarrow> \<forall>t\<in>set tms. t - lastWindowStart m \<le> 1000 \<Longrightarrow>
   fst (checks tms m) = map (\<lambda>i. sentInWindow m + i < MAX_RATE_PER_SECOND) [0..<length tms] \<and>
   lastWindowStart (snd (checks tms m)) = lastWindowStart m"
proof (induction tms arbitrary: m)
  case Nil
  then show ?case by simp
next
  case (Cons t tms)
  have ne: "\<not> window_expired t m"
    using Cons.prems by (simp add: window_expired_def)
  show ?case
  proof (cases "sentInWindow m \<ge> MAX_RATE_PER_SECOND")
    case True
    then have step: "allowSendRate t m = (False, m)"
      using ne by (simp add: allowSendRate_def)
    have ih: "fst (checks tms m) = map (\<lambda>i. sentInWindow m + i < MAX_RATE_PER_SECOND) [0..<length tms] \<and>
      lastWindowStart (snd (checks tms m)) = lastWindowStart m"
      using Cons.IH [of m] Cons.prems by simp
    have "map (\<lambda>i. sentInWindow m + i < MAX_RATE_PER_SECOND) [0..<length tms] =
          map (\<lambda>i. sentInWindow m + Suc i < MAX_RATE_PER_SECOND) [0..<length tms]"
      using True by simp
    then show ?thesis
      using True step ih
      by (auto simp add: map_upt_Suc simp del: upt_Suc split: prod.splits)
  next
    case False
    let ?m' = "m\<lparr>sentInWindow := sentInWindow m + 1\<rparr>"
    have step: "allowSendRate t m = (True, ?m')"
      using ne False by (simp add: allowSendRate_def)
    have ih: "fst (checks tms ?m') = map (\<lambda>i. sentInWindow ?m' + i < MAX_RATE_PER_SECOND) [0..<length tms] \<and>
      lastWindowStart (snd (checks tms ?m')) = lastWindowStart ?m'"
      using Cons.IH [of ?m'] Cons.prems by simp
    show ?thesis
      using False step ih
      by (auto simp add: map_upt_Suc simp del: upt_Suc split: prod.splits)
  qed
qed

text \<open>
  C5: an admission check at time \<open>t\<close> first resets the window when more than 1000 ms have
  passed since its start, then denies when the count has reached \<open>MAX_RATE_PER_SECOND\<close> and
  otherwise increments the count and admits. So when the check at \<open>t\<close> resets the window and
  the checks after it fall within 1000 ms of \<open>t\<close>, the check of index \<open>i\<close> (counted from the
  resetting one) admits exactly when \<open>i < MAX_RATE_PER_SECOND\<close>: the first 50 admit, every
  further one is denied. The clock never reads 0, the one window start the code takes for
  a missing one.
\<close>

theorem allowSendRate_window:
  assumes "lastWindowStart m \<noteq> 0" and "t \<noteq> 0"
  shows "allowSendRate t m =
          (let m1 = (if t - lastWindowStart m > 1000
                     then m\<lparr>lastWindowStart := t, sentInWindow := 0\<rparr> else m)
           in if sentInWindow m1 \<ge> MAX_RATE_PER_SECOND then (False, m1)
              else (True, m1\<lparr>sentInWindow := sentInWindow m1 + 1\<rparr>)) \<and>
         (t - lastWindowStart m > 1000 \<longrightarrow> (\<forall>u\<in>set tms. u - t \<le> 1000) \<longrightarrow>
            fst (checks (t # tms) m) =
              map (\<lambda>i. i < MAX_RATE_PER_SECOND) [0..<Suc (length tms)])"
proof (intro conjI impI)
  show "allowSendRate t m =
          (let m1 = (if t - lastWindowStart m > 1000
                     then m\<lparr>lastWindowStart := t, sentInWindow := 0\<rparr> else m)
           in if sentInWindow m1 \<ge> MAX_RATE_PER_SECOND then (False, m1)
              else (True, m1\<lparr>sentInWindow := sentInWindow m1 + 1\<rparr>))"
    using assms by (simp add: allowSendRate_def window_expired_def)
next
  assume ex: "t - lastWindowStart m > 1000" and win: "\<forall>u\<in>set tms. u - t \<le> 1000"
  let ?m0 = "m\<lparr>lastWindowStart := t, sentInWindow := 0\<rparr>"
  have same: "checks (t # tms) m = checks (t # tms) ?m0"
    using ex assms by (simp add: allowSendRate_def window_expired_def)
  have "fst (checks (t # tms) ?m0) =
        map (\<lambda>i. sentInWindow ?m0 + i < MAX_RATE_PER_SECOND) [0..<length (t # tms)]"
    using checks_in_window [of ?m0 "t # tms"] assms win by simp
  then show "fst (checks (t # tms) m) = map (\<lambda>i. i < MAX_RATE_PER_SECOND) [0..<Suc (length tms)]"
    using same by simp
qed

theorem allowSendRate_window_witness:
  "lastWindowStart meta_full \<noteq> 0 \<and> (1762065002000::int) \<noteq> 0 \<and>
   1762065002000 - lastWindowStart meta_full > 1000 \<and>
   fst (checks (1762065002000 # replicate 51 1762065002900) meta_full) =
     replicate 50 True @ [False, False]"
proof -
  have a: "lastWindowStart meta_full \<noteq> 0" by (simp add: meta_full_def)
  have nz: "(1762065002000::int) \<noteq> 0" by simp
  have b: "1762065002000 - lastWindowStart meta_full > 1000" by (simp add: meta_full_def)
  have c: "\<forall>u\<in>set (replicate 51 (1762065002900::int)). u - 1762065002000 \<le> 1000" by simp
  have d: "map (\<lambda>i. i < MAX_RATE_PER_SECOND) [0..<Suc (length (replicate 51 (1762065002900::int)))] =
           replicate 50 True @ [False, False]"
    by code_simp
  have "fst (checks (1762065002000 # replicate 51 1762065002900) meta_full) =
        map (\<lambda>i. i < MAX_RATE_PER_SECOND) [0..<Suc (length (replicate 51 (1762065002900::int)))]"
    using allowSendRate_window [OF a nz, of "replicate 51 1762065002900"] b c
    by blast
  then show ?thesis using a b d by (simp only: simp_thms)
qed

section \<open>Price invariant\<close>

lemma simulateTick_ok: "ohlc_ok state \<Longrightarrow> ohlc_ok (simulateTick r1 r2 now state)"
  by (auto simp: ohlc_ok_def simulateTick_def Let_def)

lemma store_ok_iff: "store_ok st \<longleftrightarrow> (\<forall>kv\<in>set st. ohlc_ok (snd kv))"
  by (induction st) auto

lemma init_store_ok: "store_ok (init_instruments today now)"
  by (simp add: init_instruments_def init_instrument_def BASE_OHLC_def ohlc_ok_def)

lemma store_update_ok: "store_ok st \<Longrightarrow> ohlc_ok v \<Longrightarrow> store_ok (store_update k v st)"
  by (induction st) auto

lemma map_of_ok: "store_ok st \<Longrightarrow> map_of st k = Some v \<Longrightarrow> ohlc_ok v"
  by (induction st) (auto split: if_splits)

lemma simulate_each_ok:
  "store_ok st \<Longrightarrow> simulate_each e syms st = Inr (st', us) \<Longrightarrow> store_ok st'"
proof (induction e syms st arbitrary: st' us rule: simulate_each.induct)
  case (1 e st)
  then show ?case by simp
next
  case (2 e syms st)
  then show ?case by simp
next
  case (3 e symb syms st)
  from "3.prems"(2) obtain state where look: "map_of st symb = Some state"
    by (auto split: option.splits)
  let ?u = "simulateTick (rnd_pct e symb) (rnd_vol e symb) (tick_now e symb) state"
  from "3.prems"(2) look obtain us' where
    rest: "simulate_each e syms (store_update symb ?u st) = Inr (st', us')"
    by (auto simp: Let_def split: sum.splits)
  have "ohlc_ok ?u"
    using map_of_ok [OF "3.prems"(1) look] by (rule simulateTick_ok)
  then have "store_ok (store_update symb ?u st)"
    using "3.prems"(1) by (simp add: store_update_ok)
  then show ?case
    using "3.IH" [OF look refl _ rest] by simp
qed

lemma tick_store_ok:
  "store_ok (instruments w) \<Longrightarrow> tick e w = Some (Inr (w', d)) \<Longrightarrow> store_ok (instruments w')"
  by (auto simp: tick_def split: if_splits option.splits sum.splits dest: simulate_each_ok)

lemma tick0_done: "is_done (tick env0 world_start)"
  by code_simp

lemma gate0_open: "isMarketOpenIST (tz env0) (gate_now env0)"
  by code_simp

lemma tick0: "tick env0 world_start = Some (Inr (world1, BROADCAST_INTERVAL_MS))"
proof -
  have "is_done (tick env0 world_start)" by (rule tick0_done)
  then obtain w d where wd: "tick env0 world_start = Some (Inr (w, d))"
    by (auto simp: is_done_def split: option.splits sum.splits)
  then have "d = BROADCAST_INTERVAL_MS"
    using gate0_open by (auto simp: tick_def split: if_splits option.splits sum.splits)
  then show ?thesis using wd by (simp add: world1_def)
qed

text \<open>
  C2: in every state of the server, from the table built out of the seed rows on and after
  every run of \<open>tick\<close>, each instrument has \<open>low_price \<le> close_price \<le> high_price\<close> and
  \<open>low_price \<le> open_price \<le> high_price\<close>.
\<close>

theorem ohlc_invariant: "reachable w \<Longrightarrow> store_ok (instruments w)"
proof (induction rule: reachable.induct)
  case (start today now)
  then show ?case by (simp add: init_store_ok)
next
  case (tick w e w' delay)
  then show ?case by (simp add: tick_store_ok)
qed simp_all

theorem ohlc_invariant_witness:
  "reachable world_start \<and> store_ok (instruments world_start) \<and>
   reachable world1 \<and> store_ok (instruments world1) \<and>
   close_price (the (map_of (instruments world1) ''TSLA'')) = 410.1687"
proof -
  have r0: "reachable world_start"
    unfolding world_start_def seed_store_def by (rule reachable.start)
  have r1: "reachable world1"
    using r0 tick0 by (rule reachable.tick)
  have c: "close_price (the (map_of (instruments world1) ''TSLA'')) = 410.1687"
    by code_simp
  show ?thesis
    using r0 r1 c ohlc_invariant [OF r0] ohlc_invariant [OF r1] by simp
qed

section \<open>Market clock gate\<close>

lemma clock_fields:
  fixes l :: int
  shows "((l div 3600000) mod 24) * 60 + (l div 60000) mod 60 = (l div 60000) mod 1440"
proof -
  have a: "l div 3600000 = (l div 60000) div 60"
    by (simp add: zdiv_zmult2_eq)
  have "(l div 60000) mod (60 * 24) = 60 * ((l div 60000) div 60 mod 24) + (l div 60000) mod 60"
    by (rule zmod_zmult2_eq) simp
  then show ?thesis using a by simp
qed

text \<open>
  On a host whose offset is the same at the current instant and at the shifted instant
  that \<open>nowInIST\<close> builds (any host without a change of offset in between, a UTC host in
  particular), the gate is open exactly for minutes 600 to 1139 of the day at UTC+5:30.
\<close>

lemma isMarketOpenIST_stable_offset:
  assumes "zone (nowInIST zone now) = zone now"
  shows "isMarketOpenIST zone now = spec_market_open now"
proof -
  let ?ist = "nowInIST zone now"
  have l: "?ist - zone ?ist * 60000 = now + 330 * 60000"
    using assms by (simp add: nowInIST_def IST_OFFSET_MINUTES_def Let_def)
  have "getHours zone ?ist * 60 + getMinutes zone ?ist = ist_minutes_since_midnight now"
    unfolding getHours_def getMinutes_def ist_minutes_since_midnight_def l
    by (rule clock_fields)
  then show ?thesis
    by (simp add: isMarketOpenIST_def spec_market_open_def Let_def)
qed

lemma isMarketOpenIST_utc: "isMarketOpenIST tz_utc now = spec_market_open now"
  by (rule isMarketOpenIST_stable_offset) (simp add: tz_utc_def)

text \<open>
  The three instants of the claim, on 2025-11-02 on a UTC host: 12:00 IST is 06:30 UTC,
  09:00 IST is 03:30 UTC, 20:00 IST is 14:30 UTC.
\<close>

lemma isMarketOpenIST_utc_examples:
  "isMarketOpenIST tz_utc 1762065000000 \<and> \<not> isMarketOpenIST tz_utc 1762054200000 \<and>
   \<not> isMarketOpenIST tz_utc 1762093800000"
  by (simp add: isMarketOpenIST_utc spec_market_open_def ist_minutes_since_midnight_def)

text \<open>
  C7 fails on a host with daylight saving time. On US Eastern time at 2025-11-02 05:00 UTC
  it is 10:30 at UTC+5:30, minute 630 of the day, inside the trading window. The host's
  offset is 240 minutes at that instant and 300 minutes at the shifted instant, which lies
  after the end of daylight saving time at 06:00 UTC, so \<open>getHours\<close> and \<open>getMinutes\<close> read
  09:30 and the gate is closed. On US Pacific time at 2025-03-09 03:30 UTC it is 09:00 at
  UTC+5:30, before the window; the shifted instant lies after the start of daylight
  saving time, the getters read 10:00 and the gate is open.
\<close>

theorem isMarketOpenIST_dst_divergence:
  "isMarketOpenIST tz_new_york 1762059600000 = False \<and>
   ist_minutes_since_midnight 1762059600000 = 630 \<and>
   spec_market_open 1762059600000 = True \<and>
   isMarketOpenIST tz_los_angeles 1741491000000 = True \<and>
   ist_minutes_since_midnight 1741491000000 = 540 \<and>
   spec_market_open 1741491000000 = False"
  by (simp add: isMarketOpenIST_def nowInIST_def getHours_def getMinutes_def tz_new_york_def
      tz_los_angeles_def IST_OFFSET_MINUTES_def spec_market_open_def
      ist_minutes_since_midnight_def Let_def)

section \<open>Subscriptions\<close>


lemma add_each_set: "set (add_each xs acc) = set acc \<union> set xs"
  unfolding add_each_def
  by (induction xs arbitrary: acc) (auto simp: set_add_def)

lemma add_each_distinct: "distinct acc \<Longrightarrow> distinct (add_each xs acc)"
  unfolding add_each_def
  by (induction xs arbitrary: acc) (auto simp: set_add_def)



text \<open>
  What \<open>subscribe\<close> does where it returns: a payload that is falsy or has length 0
  subscribes to every key of the table; a non-empty list replaces the set by the listed
  symbols for which \<open>instruments[sym]\<close> is truthy.
\<close>

lemma on_subscribe_everything:
  "\<not> truthy symbols \<or> length_is_zero symbols \<Longrightarrow>
   \<exists>s'. on_subscribe st symbols s = Inr s' \<and> set (subs (meta s')) = set (store_keys st)"
  by (auto simp: on_subscribe_def Let_def emit_def add_each_set)

lemma on_subscribe_list:
  "xs \<noteq> [] \<Longrightarrow>
   \<exists>s'. on_subscribe st (JArr xs) s = Inr s' \<and>
        set (subs (meta s')) = {x \<in> set xs. has_property st x}"
  by (auto simp: on_subscribe_def Let_def emit_def add_each_set)

lemma on_subscribe_known_unknown:
  "map_sum id (\<lambda>s. subs (meta s)) (on_subscribe seed_store (JArr [''AAPL'', ''UNKNOWN'']) sock_aapl_goog) =
     Inr [''AAPL'']"
  by (simp add: on_subscribe_def Let_def emit_def add_each_def set_add_def has_property_def
      store_keys_def seed_store_def init_instruments_def init_instrument_def BASE_OHLC_def
      object_prototype_keys_def)

text \<open>
  C6 fails on a payload that is truthy, has a length other than 0 and is not a list: the
  string \<open>"AAPL"\<close> has no \<open>filter\<close> method and the handler throws. The \<open>unsubscribe\<close>
  handler guards the same case with \<open>Array.isArray\<close>.
\<close>

theorem on_subscribe_string_throws:
  "on_subscribe seed_store (JStr ''AAPL'') sock_aapl_goog = Inl TypeError"
  by (simp add: on_subscribe_def)

theorem on_subscribe_string_throws_witness:
  "truthy (JStr ''AAPL'') \<and> \<not> length_is_zero (JStr ''AAPL'') \<and> \<not> isArray (JStr ''AAPL'') \<and>
   on_subscribe seed_store (JStr ''AAPL'') sock_aapl_goog = Inl TypeError \<and>
   on_unsubscribe (JStr ''AAPL'') sock_aapl_goog = Inr sock_aapl_goog"
  using on_subscribe_string_throws by (simp add: on_unsubscribe_def)

text \<open>
  A listed name that the table inherits from \<open>Object.prototype\<close> passes the filter as
  well, although it is no key of the table.
\<close>

lemma on_subscribe_inherited_name:
  "map_sum id (\<lambda>s. subs (meta s)) (on_subscribe seed_store (JArr [''AAPL'', ''toString'']) sock_aapl_goog) =
     Inr [''AAPL'', ''toString''] \<and> ''toString'' \<notin> set (store_keys seed_store)"
  by (simp add: on_subscribe_def Let_def emit_def add_each_def set_add_def has_property_def
      store_keys_def seed_store_def init_instruments_def init_instrument_def BASE_OHLC_def
      object_prototype_keys_def)

section \<open>Selection and mutation\<close>





lemma store_update_keys: "map fst (store_update k v st) = map fst st"
  by (induction st) auto









lemma simulated_symbol: "symbol (simulated e k state) = symbol state"
  by (simp add: simulated_def simulateTick_def Let_def)





lemma allowSendRate_count:
  "sentInWindow (snd (allowSendRate now m)) =
     (if window_expired now m then 0 else sentInWindow m) +
     (if fst (allowSendRate now m) then 1 else 0)"
  by (simp add: allowSendRate_def Let_def)








section \<open>The table in every state of the server\<close>

text \<open>
  What holds of every entry of the start-up table and is kept by \<open>simulateTick\<close> holds
  in every state of the server. So the table always has the 20 seed keys, each state
  carries its key as \<open>symbol\<close>, and open and close prices have at most four decimal
  places.
\<close>

lemma store_update_list_all:
  "list_all P st \<Longrightarrow> P (k, v) \<Longrightarrow> list_all P (store_update k v st)"
  by (induction st) auto

lemma map_of_list_all: "list_all P st \<Longrightarrow> map_of st k = Some v \<Longrightarrow> P (k, v)"
  by (induction st) (auto split: if_splits)

lemma simulate_each_list_all:
  assumes step: "\<And>k v. P (k, v) \<Longrightarrow> P (k, simulated e k v)"
  shows "list_all P st \<Longrightarrow> simulate_each e syms st = Inr (st', us) \<Longrightarrow> list_all P st'"
proof (induction syms arbitrary: st st' us)
  case Nil
  then show ?case by simp
next
  case (Cons x syms)
  from Cons.prems(2) obtain symb where x: "x = Some symb"
    by (cases x) auto
  from Cons.prems(2) x obtain state where look: "map_of st symb = Some state"
    by (auto split: option.splits)
  let ?u = "simulated e symb state"
  from Cons.prems(2) x look obtain us' where
    rest: "simulate_each e syms (store_update symb ?u st) = Inr (st', us')"
    by (auto simp: Let_def simulated_def split: sum.splits)
  have "P (symb, state)" using Cons.prems(1) look by (rule map_of_list_all)
  then have "P (symb, ?u)" by (rule step)
  then have "list_all P (store_update symb ?u st)"
    using Cons.prems(1) by (simp add: store_update_list_all)
  then show ?case using rest by (rule Cons.IH)
qed

lemma simulate_each_keys:
  "simulate_each e syms st = Inr (st', us) \<Longrightarrow> map fst st' = map fst st"
proof (induction syms arbitrary: st st' us)
  case Nil
  then show ?case by simp
next
  case (Cons x syms)
  from Cons.prems obtain symb where x: "x = Some symb"
    by (cases x) auto
  from Cons.prems x obtain state where look: "map_of st symb = Some state"
    by (auto split: option.splits)
  let ?u = "simulated e symb state"
  from Cons.prems x look obtain us' where
    rest: "simulate_each e syms (store_update symb ?u st) = Inr (st', us')"
    by (auto simp: Let_def simulated_def split: sum.splits)
  show ?case
    using Cons.IH [OF rest] by (simp add: store_update_keys)
qed

lemma tick_instruments:
  assumes "tick e w = Some (Inr (w', d))"
  shows "instruments w' = instruments w \<or>
         (\<exists>syms us. simulate_each e syms (instruments w) = Inr (instruments w', us))"
  using assms by (auto simp: tick_def split: if_splits option.splits sum.splits)

lemma reachable_list_all:
  assumes init: "\<And>today now. list_all P (init_instruments today now)"
    and step: "\<And>e k v. P (k, v) \<Longrightarrow> P (k, simulated e k v)"
  shows "reachable w \<Longrightarrow> list_all P (instruments w)"
proof (induction rule: reachable.induct)
  case (start today now)
  then show ?case by (simp add: init)
next
  case (tick w e w' delay)
  then show ?case
    using tick_instruments [OF tick.hyps(2)] simulate_each_list_all [of P e, OF step]
    by auto
qed simp_all

lemma reachable_keys: "reachable w \<Longrightarrow> store_keys (instruments w) = map fst BASE_OHLC"
proof (induction rule: reachable.induct)
  case (start today now)
  then show ?case
    by (simp add: store_keys_def init_instruments_def init_instrument_def comp_def)
next
  case (tick w e w' delay)
  then show ?case
    using tick_instruments [OF tick.hyps(2)] simulate_each_keys
    by (auto simp: store_keys_def)
qed simp_all

lemma reachable_store_wf: "reachable w \<Longrightarrow> store_wf (instruments w)"
proof -
  assume r: "reachable w"
  have keys: "store_keys (instruments w) = map fst BASE_OHLC" using r by (rule reachable_keys)
  have "list_all (\<lambda>kv. symbol (snd kv) = fst kv) (instruments w)"
    using r
  proof (rule reachable_list_all [rotated 2])
    show "list_all (\<lambda>kv. symbol (snd kv) = fst kv) (init_instruments today now)" for today now
      by (simp add: init_instruments_def init_instrument_def list_all_iff)
    show "symbol (snd (k, simulated e k v)) = fst (k, simulated e k v)"
      if "symbol (snd (k, v)) = fst (k, v)" for e k v
      using that by (simp add: simulated_symbol)
  qed
  then have "map (\<lambda>kv. symbol (snd kv)) (instruments w) = store_keys (instruments w)"
    by (simp add: store_keys_def list_all_iff)
  moreover have "distinct (map fst BASE_OHLC)" by (simp add: BASE_OHLC_def)
  moreover have "instruments w \<noteq> []" using keys by (auto simp: store_keys_def BASE_OHLC_def)
  ultimately show ?thesis using keys by (simp add: store_wf_def)
qed

lemma reachable_on_grid:
  "reachable w \<Longrightarrow>
   list_all (\<lambda>kv. on_grid (open_price (snd kv)) \<and> on_grid (close_price (snd kv))) (instruments w)"
proof (rule reachable_list_all [rotated 2])
  show "list_all (\<lambda>kv. on_grid (open_price (snd kv)) \<and> on_grid (close_price (snd kv)))
         (init_instruments today now)" for today now
    by (simp add: init_instruments_def init_instrument_def BASE_OHLC_def on_grid_def)
  show "on_grid (open_price (snd (k, simulated e k v))) \<and>
        on_grid (close_price (snd (k, simulated e k v)))"
    if "on_grid (open_price (snd (k, v))) \<and> on_grid (close_price (snd (k, v)))" for e k v
    using that by (simp add: simulated_def simulateTick_def Let_def toFixed4_on_grid)
qed

section \<open>Two concrete cycles\<close>









section \<open>Tick generator\<close>



section \<open>Broadcast loop\<close>





section \<open>Updates per rate window\<close>


lemma socket_cycle_meta: "meta (socket_cycle now updates s) = snd (allowSendRate now (meta s))"
  by (cases "allowSendRate now (meta s)") (simp add: socket_cycle_def Let_def)


lemma allowSendRate_start:
  "lastWindowStart (snd (allowSendRate now m)) =
     (if window_expired now m then now else lastWindowStart m)"
  by (simp add: allowSendRate_def Let_def)

lemma on_subscribe_start:
  "on_subscribe st symbols s = Inr s' \<Longrightarrow> lastWindowStart (meta s') = lastWindowStart (meta s)"
  by (auto simp: on_subscribe_def Let_def emit_def split: if_splits jsval.splits)

lemma on_unsubscribe_start:
  "on_unsubscribe symbols s = Inr s' \<Longrightarrow> lastWindowStart (meta s') = lastWindowStart (meta s)"
  by (auto simp: on_unsubscribe_def emit_def split: if_splits jsval.splits)

lemma on_ping_start: "lastWindowStart (meta (on_ping now s)) = lastWindowStart (meta s)"
  by (simp add: on_ping_def emit_def)








text \<open>
  With the cycles spaced by the timer, the count of a window never passes 2, so no cycle
  of a connection is ever denied: every cycle consumes one admission.
\<close>


lemma allowSendRate_admits:
  "(if window_expired now m then 0 else sentInWindow m) < MAX_RATE_PER_SECOND \<Longrightarrow>
   fst (allowSendRate now m)"
  by (auto simp: allowSendRate_def Let_def split: if_splits)

lemma on_subscribe_count:
  "on_subscribe st symbols s = Inr s' \<Longrightarrow> sentInWindow (meta s') = sentInWindow (meta s)"
  by (auto simp: on_subscribe_def Let_def emit_def split: if_splits jsval.splits)

lemma on_unsubscribe_count:
  "on_unsubscribe symbols s = Inr s' \<Longrightarrow> sentInWindow (meta s') = sentInWindow (meta s)"
  by (auto simp: on_unsubscribe_def emit_def split: if_splits jsval.splits)

lemma on_ping_count: "sentInWindow (meta (on_ping now s)) = sentInWindow (meta s)"
  by (simp add: on_ping_def emit_def)

lemma conn_admits_all:
  "timer_ok lb evs \<Longrightarrow> lastWindowStart (meta s) \<le> lb \<Longrightarrow> sentInWindow (meta s) \<le> 2 \<Longrightarrow>
   (lb \<le> lastWindowStart (meta s) + 1000 \<longrightarrow> sentInWindow (meta s) \<le> 1) \<Longrightarrow>
   (lb \<le> lastWindowStart (meta s) + 200 \<longrightarrow> sentInWindow (meta s) = 0) \<Longrightarrow>
   list_all (\<lambda>ok. ok) (conn_admits st evs s)"
proof (induction st evs s arbitrary: lb rule: conn_admits.induct)
  case (1 st s)
  then show ?case by simp
next
  case (2 st now updates evs s)
  let ?W = "lastWindowStart (meta s)"
  let ?s' = "socket_cycle now updates s"
  from "2.prems" have lb: "lb \<le> now"
    and tok: "timer_ok (now + BROADCAST_INTERVAL_MS) evs" and W: "?W \<le> lb"
    by simp_all
  have ok: "fst (allowSendRate now (meta s))"
    using "2.prems"(3) by (intro allowSendRate_admits) (simp add: MAX_RATE_PER_SECOND_def)
  have w': "lastWindowStart (meta ?s') = (if window_expired now (meta s) then now else ?W)"
    by (simp add: socket_cycle_meta allowSendRate_start)
  have c': "sentInWindow (meta ?s') =
            (if window_expired now (meta s) then 0 else sentInWindow (meta s)) + 1"
    using ok by (simp add: socket_cycle_meta allowSendRate_count)
  have "list_all (\<lambda>ok. ok) (conn_admits st evs ?s')"
  proof (rule "2.IH" [OF tok])
    show "lastWindowStart (meta ?s') \<le> now + BROADCAST_INTERVAL_MS"
      using w' W lb by (auto simp: BROADCAST_INTERVAL_MS_def)
    show "sentInWindow (meta ?s') \<le> 2"
    proof (cases "window_expired now (meta s)")
      case True
      then show ?thesis using c' by simp
    next
      case False
      then have "now \<le> ?W + 1000" by (simp add: window_expired_def)
      then have "sentInWindow (meta s) \<le> 1" using "2.prems"(4) lb by simp
      then show ?thesis using c' False by simp
    qed
    show "now + BROADCAST_INTERVAL_MS \<le> lastWindowStart (meta ?s') + 1000 \<longrightarrow>
          sentInWindow (meta ?s') \<le> 1"
    proof (cases "window_expired now (meta s)")
      case True
      then show ?thesis using c' by simp
    next
      case False
      show ?thesis
      proof
        assume "now + BROADCAST_INTERVAL_MS \<le> lastWindowStart (meta ?s') + 1000"
        then have "now \<le> ?W + 200" using w' False by (simp add: BROADCAST_INTERVAL_MS_def)
        then have "sentInWindow (meta s) = 0" using "2.prems"(5) lb by simp
        then show "sentInWindow (meta ?s') \<le> 1" using c' False by simp
      qed
    qed
    show "now + BROADCAST_INTERVAL_MS \<le> lastWindowStart (meta ?s') + 200 \<longrightarrow>
          sentInWindow (meta ?s') = 0"
      using w' W lb by (auto simp: BROADCAST_INTERVAL_MS_def)
  qed
  then show ?case using ok by simp
next
  case (3 st symbols evs s)
  show ?case
  proof (cases "on_subscribe st symbols s")
    case (Inl err)
    then show ?thesis by simp
  next
    case (Inr s')
    have "lastWindowStart (meta s') = lastWindowStart (meta s)"
      and "sentInWindow (meta s') = sentInWindow (meta s)"
      using Inr by (rule on_subscribe_start, rule on_subscribe_count)
    moreover have "timer_ok lb evs" using "3.prems"(1) by simp
    ultimately show ?thesis
      using "3.IH" [OF Inr, of lb] "3.prems"(2-) Inr by simp
  qed
next
  case (4 st symbols evs s)
  show ?case
  proof (cases "on_unsubscribe symbols s")
    case (Inl err)
    then show ?thesis by simp
  next
    case (Inr s')
    have "lastWindowStart (meta s') = lastWindowStart (meta s)"
      and "sentInWindow (meta s') = sentInWindow (meta s)"
      using Inr by (rule on_unsubscribe_start, rule on_unsubscribe_count)
    moreover have "timer_ok lb evs" using "4.prems"(1) by simp
    ultimately show ?thesis
      using "4.IH" [OF Inr, of lb] "4.prems"(2-) Inr by simp
  qed
next
  case (5 st now evs s)
  then show ?case using on_ping_start [of now s] on_ping_count [of now s] by simp
qed

lemma conn_never_denied:
  "timer_ok c evs \<Longrightarrow> list_all (\<lambda>ok. ok) (conn_admits st evs (on_connection c i))"
  by (rule conn_admits_all [of c]) (simp_all add: on_connection_def emit_def)

end
